theory Spec2Isabelle
  imports Main "HOL-Library.AList"
begin

section \<open>Errors\<close>

text \<open>
  The exceptions the modelled code can raise. \<open>KeyError\<close> carries the missing key (a field
  name, or a bucket string of the in-memory store); \<open>BadPath\<close> is the local exception of
  \<open>Runtime.querypath\<close>; \<open>UnboundLocalError\<close> is what Python raises when \<open>DbModel._key\<close>
  falls through its \<open>elif\<close> chain without binding \<open>block_id\<close>.
\<close>

datatype error =
    KeyError string
  | BadPath
  | NotImplementedError
  | UnboundLocalError

section \<open>Scopes, fields, block identities and keys\<close>

text \<open>
  Modelled from the spec: \<open>Scope\<close>, \<open>BlockScope\<close> and \<open>ModelType\<close> are declared in
  \<open>xblock/core.py\<close>, which is not among the sources. Following section 3 of the
  specification, a scope is a pair of a granularity (read by the code as \<open>scope.block\<close>)
  and a per-user flag (read as \<open>scope.user\<close>); the tests \<open>scope == Scope.children\<close> and
  \<open>scope == Scope.parent\<close> are tests of the granularity. A field descriptor carries its
  scope; its name is the attribute name under which its owner declares it.
\<close>

datatype BlockScope = USAGE | DEFINITION | TYPE_scope | ALL_scope | CHILDREN | PARENT

record Scope =
  user :: bool
  block :: BlockScope

record ModelType =
  field_scope :: Scope

text \<open>\<open>BlockId = namedtuple('BlockId', 'usage_id def_id')\<close>\<close>

record BlockId =
  usage_id :: string
  def_id :: string

text \<open>\<open>KeyValueStore.Key = namedtuple("Key", "scope, student_id, block_scope_id, field_name")\<close>\<close>

record Key =
  scope :: Scope
  student_id :: "string option"
  block_scope_id :: "string option"
  field_name :: string

section \<open>Block type metadata\<close>

text \<open>
  Modelled from the spec: the block class (\<open>XBlock\<close> and its metaclass) is declared in
  \<open>xblock/core.py\<close>, which is not among the sources. Section 6 of the specification says
  the block type exposes its own field descriptors, an ordered sequence of namespace names
  and, for each namespace name, a namespace object. Here \<open>cls_attrs\<close> are the attributes
  \<open>getattr(block_cls, name, None)\<close> finds (a \<open>ModelType\<close> instance or something else),
  \<open>cls_namespaces\<close> is \<open>None\<close> when the class has no attribute \<open>namespaces\<close>, and otherwise
  lists every namespace name with the attributes of \<open>type(namespace)\<close>.
\<close>

datatype attr = ModelTypeAttr ModelType | OtherAttr

record block_cls =
  cls_name :: string
  cls_attrs :: "string \<rightharpoonup> attr"
  cls_namespaces :: "(string \<times> (string \<rightharpoonup> attr)) list option"

section \<open>The key-value store interface\<close>

text \<open>
  \<open>KeyValueStore\<close> is an abstract interface; the overlay holds a reference to some
  implementation. A method may change the store and may raise, so each method takes the
  state of the store and returns its outcome together with the state it leaves.
\<close>

record ('s, 'v) KeyValueStore =
  kvs_get :: "'s \<Rightarrow> Key \<Rightarrow> (error + 'v) \<times> 's"
  kvs_set :: "'s \<Rightarrow> Key \<Rightarrow> 'v \<Rightarrow> (error + unit) \<times> 's"
  kvs_delete :: "'s \<Rightarrow> Key \<Rightarrow> (error + unit) \<times> 's"
  kvs_has :: "'s \<Rightarrow> Key \<Rightarrow> (error + bool) \<times> 's"
  kvs_set_many :: "'s \<Rightarrow> (Key \<times> 'v) list \<Rightarrow> (error + unit) \<times> 's"

section \<open>DbModel: field resolution and key derivation\<close>

record ('s, 'v) DbModel =
  m_kvs :: "('s, 'v) KeyValueStore"
  m_block_cls :: block_cls
  m_student_id :: "string option"
  m_block_id :: BlockId

text \<open>The loop of \<open>_getfield\<close> over the namespaces: the first namespace whose type has a
  \<open>ModelType\<close> attribute of that name wins.\<close>

fun namespace_field :: "(string \<times> (string \<rightharpoonup> attr)) list \<Rightarrow> string \<Rightarrow> ModelType option" where
  "namespace_field [] name = None"
| "namespace_field ((namespace_name, namespace) # rest) name =
     (case namespace name of
        Some (ModelTypeAttr namespace_field') \<Rightarrow> Some namespace_field'
      | _ \<Rightarrow> namespace_field rest name)"

definition getfield :: "block_cls \<Rightarrow> string \<Rightarrow> error + ModelType" where
  "getfield cls name =
     (case cls_attrs cls name of
        Some (ModelTypeAttr block_field) \<Rightarrow> Inr block_field
      | _ \<Rightarrow>
        (case cls_namespaces cls of
           None \<Rightarrow> Inl (KeyError name)
         | Some namespaces \<Rightarrow>
             (case namespace_field namespaces name of
                Some f \<Rightarrow> Inr f
              | None \<Rightarrow> Inl (KeyError name))))"

text \<open>The \<open>if/elif\<close> chain of \<open>_key\<close> on \<open>field.scope.block\<close>. It has no \<open>else\<close>: a value
  outside the four block scopes leaves \<open>block_id\<close> unbound.\<close>

fun block_id_for :: "BlockScope \<Rightarrow> BlockId \<Rightarrow> block_cls \<Rightarrow> error + string option" where
  "block_id_for ALL_scope bid cls = Inr None"
| "block_id_for USAGE bid cls = Inr (Some (usage_id bid))"
| "block_id_for DEFINITION bid cls = Inr (Some (def_id bid))"
| "block_id_for TYPE_scope bid cls = Inr (Some (cls_name cls))"
| "block_id_for _ bid cls = Inl UnboundLocalError"

definition key_of_field :: "('s, 'v) DbModel \<Rightarrow> ModelType \<Rightarrow> string \<Rightarrow> error + Key" where
  "key_of_field m field name =
     (if block (field_scope field) = CHILDREN \<or> block (field_scope field) = PARENT then
        Inr \<lparr>scope = field_scope field, student_id = None,
             block_scope_id = Some (usage_id (m_block_id m)), field_name = name\<rparr>
      else
        (case block_id_for (block (field_scope field)) (m_block_id m) (m_block_cls m) of
           Inl e \<Rightarrow> Inl e
         | Inr block_id \<Rightarrow>
             Inr \<lparr>scope = field_scope field,
                  student_id = (if user (field_scope field) then m_student_id m else None),
                  block_scope_id = block_id, field_name = name\<rparr>))"

definition DbModel_key :: "('s, 'v) DbModel \<Rightarrow> string \<Rightarrow> error + Key" where
  "DbModel_key m name =
     (case getfield (m_block_cls m) name of
        Inl e \<Rightarrow> Inl e
      | Inr field \<Rightarrow> key_of_field m field name)"

section \<open>DbModel: the mapping operations\<close>

text \<open>\<open>__getitem__\<close>, \<open>__setitem__\<close>, \<open>__delitem__\<close>: resolve the key, then one call to the
  store. A \<open>KeyError\<close> of the resolution propagates and the store is not called.\<close>

definition getitem :: "('s, 'v) DbModel \<Rightarrow> string \<Rightarrow> 's \<Rightarrow> (error + 'v) \<times> 's" where
  "getitem m name st =
     (case DbModel_key m name of
        Inl e \<Rightarrow> (Inl e, st)
      | Inr k \<Rightarrow> kvs_get (m_kvs m) st k)"

definition setitem :: "('s, 'v) DbModel \<Rightarrow> string \<Rightarrow> 'v \<Rightarrow> 's \<Rightarrow> (error + unit) \<times> 's" where
  "setitem m name v st =
     (case DbModel_key m name of
        Inl e \<Rightarrow> (Inl e, st)
      | Inr k \<Rightarrow> kvs_set (m_kvs m) st k v)"

definition delitem :: "('s, 'v) DbModel \<Rightarrow> string \<Rightarrow> 's \<Rightarrow> (error + unit) \<times> 's" where
  "delitem m name st =
     (case DbModel_key m name of
        Inl e \<Rightarrow> (Inl e, st)
      | Inr k \<Rightarrow> kvs_delete (m_kvs m) st k)"

text \<open>\<open>__contains__\<close>: the \<open>try\<close> covers both the resolution and the call of \<open>has\<close>; only
  \<open>KeyError\<close> is caught.\<close>

definition contains :: "('s, 'v) DbModel \<Rightarrow> string \<Rightarrow> 's \<Rightarrow> (error + bool) \<times> 's" where
  "contains m name st =
     (case DbModel_key m name of
        Inl (KeyError x) \<Rightarrow> (Inr False, st)
      | Inl e \<Rightarrow> (Inl e, st)
      | Inr k \<Rightarrow>
          (case kvs_has (m_kvs m) st k of
             (Inl (KeyError x), st') \<Rightarrow> (Inr False, st')
           | r \<Rightarrow> r))"

section \<open>DbModel.update\<close>

text \<open>
  Python dictionaries with string keys are association lists with distinct keys, in
  iteration order; \<open>dict[k] = v\<close> is \<open>AList.update\<close>. The dictionary the caller passes is an
  object that \<open>update\<close> may share with the caller, so dictionaries live in a heap and the
  argument is a reference (\<open>None\<close> for Python's \<open>None\<close>).
\<close>

type_synonym 'v pydict = "(string \<times> 'v) list"

record 'v heap =
  cells :: "nat \<rightharpoonup> 'v pydict"
  next_ref :: nat

definition deref :: "'v heap \<Rightarrow> nat \<Rightarrow> 'v pydict" where
  "deref h r = (case cells h r of Some dict \<Rightarrow> dict | None \<Rightarrow> [])"

definition alloc :: "'v heap \<Rightarrow> 'v pydict \<Rightarrow> nat \<times> 'v heap" where
  "alloc h dict = (next_ref h, h\<lparr>cells := (cells h)(next_ref h \<mapsto> dict), next_ref := Suc (next_ref h)\<rparr>)"

text \<open>\<open>dict.update(kwargs)\<close>\<close>

definition dict_update :: "'v pydict \<Rightarrow> 'v pydict \<Rightarrow> 'v pydict" where
  "dict_update dict kwargs = fold (\<lambda>(k, v) acc. AList.update k v acc) kwargs dict"

text \<open>The loop \<open>for (key, value) in other_dict.items(): updated_dict[self._key(key)] = value\<close>\<close>

fun updated_dict :: "('s, 'v) DbModel \<Rightarrow> 'v pydict \<Rightarrow> (Key \<times> 'v) list \<Rightarrow> error + (Key \<times> 'v) list" where
  "updated_dict m [] acc = Inr acc"
| "updated_dict m ((key, value) # rest) acc =
     (case DbModel_key m key of
        Inl e \<Rightarrow> Inl e
      | Inr k \<Rightarrow> updated_dict m rest (AList.update k value acc))"

text \<open>\<open>other_dict = other_dict or {}\<close>: a non-empty dictionary of the caller is used as it
  is, otherwise a new empty one is allocated.\<close>

definition other_or_empty :: "'v heap \<Rightarrow> nat option \<Rightarrow> nat \<times> 'v heap" where
  "other_or_empty h other_dict =
     (case other_dict of
        None \<Rightarrow> alloc h []
      | Some r \<Rightarrow> if deref h r \<noteq> [] then (r, h) else alloc h [])"

definition DbModel_update ::
  "('s, 'v) DbModel \<Rightarrow> 'v heap \<Rightarrow> nat option \<Rightarrow> 'v pydict \<Rightarrow> 's \<Rightarrow> 'v heap \<times> (error + unit) \<times> 's" where
  "DbModel_update m h other_dict kwargs st =
     (case other_or_empty h other_dict of
        (r, h1) \<Rightarrow>
          (let h2 = h1\<lparr>cells := (cells h1)(r \<mapsto> dict_update (deref h1 r) kwargs)\<rparr> in
           case updated_dict m (deref h2 r) [] of
             Inl e \<Rightarrow> (h2, Inl e, st)
           | Inr ud \<Rightarrow> (h2, kvs_set_many (m_kvs m) st ud)))"

section \<open>MemoryKeyValueStore\<close>

record 'v MemoryKeyValueStore =
  d :: "string \<rightharpoonup> (string \<rightharpoonup> 'v)"

text \<open>\<open>".".join(k)\<close>\<close>

fun join :: "string \<Rightarrow> string list \<Rightarrow> string" where
  "join sep [] = []"
| "join sep [x] = x"
| "join sep (x # y # zs) = x @ sep @ join sep (y # zs)"

text \<open>The list \<open>["usage", "definition", "type", "all"]\<close> indexed by \<open>key.scope.block\<close>, after
  the two tests for \<open>Scope.children\<close> and \<open>Scope.parent\<close>.\<close>

fun scope_tag :: "BlockScope \<Rightarrow> string" where
  "scope_tag CHILDREN = ''children''"
| "scope_tag PARENT = ''parent''"
| "scope_tag USAGE = ''usage''"
| "scope_tag DEFINITION = ''definition''"
| "scope_tag TYPE_scope = ''type''"
| "scope_tag ALL_scope = ''all''"

text \<open>The list \<open>k\<close> that \<open>actual_key\<close> builds and joins. \<open>if key.student_id:\<close> is a truth
  test: \<open>None\<close> and the empty string both fail it.\<close>

definition key_parts :: "Key \<Rightarrow> string list" where
  "key_parts key =
     [scope_tag (block (scope key))]
     @ (case block_scope_id key of Some b \<Rightarrow> [b] | None \<Rightarrow> [])
     @ (case student_id key of Some s \<Rightarrow> (if s \<noteq> [] then [s] else []) | None \<Rightarrow> [])"

definition actual_key :: "Key \<Rightarrow> string" where
  "actual_key key = join ''.'' (key_parts key)"

definition MemoryKeyValueStore_get :: "'v MemoryKeyValueStore \<Rightarrow> Key \<Rightarrow> error + 'v" where
  "MemoryKeyValueStore_get st key =
     (case d st (actual_key key) of
        None \<Rightarrow> Inl (KeyError (actual_key key))
      | Some bucket \<Rightarrow>
          (case bucket (field_name key) of
             None \<Rightarrow> Inl (KeyError (field_name key))
           | Some v \<Rightarrow> Inr v))"

definition MemoryKeyValueStore_set :: "'v MemoryKeyValueStore \<Rightarrow> Key \<Rightarrow> 'v \<Rightarrow> 'v MemoryKeyValueStore" where
  "MemoryKeyValueStore_set st key v =
     st\<lparr>d := (d st)(actual_key key \<mapsto>
                 (case d st (actual_key key) of None \<Rightarrow> Map.empty | Some bucket \<Rightarrow> bucket)
                   (field_name key \<mapsto> v))\<rparr>"

definition MemoryKeyValueStore_delete :: "'v MemoryKeyValueStore \<Rightarrow> Key \<Rightarrow> error + 'v MemoryKeyValueStore" where
  "MemoryKeyValueStore_delete st key =
     (case d st (actual_key key) of
        None \<Rightarrow> Inl (KeyError (actual_key key))
      | Some bucket \<Rightarrow>
          (case bucket (field_name key) of
             None \<Rightarrow> Inl (KeyError (field_name key))
           | Some v \<Rightarrow> Inr (st\<lparr>d := (d st)(actual_key key \<mapsto> bucket(field_name key := None))\<rparr>)))"

definition MemoryKeyValueStore_has :: "'v MemoryKeyValueStore \<Rightarrow> Key \<Rightarrow> error + bool" where
  "MemoryKeyValueStore_has st key =
     (case d st (actual_key key) of
        None \<Rightarrow> Inl (KeyError (actual_key key))
      | Some bucket \<Rightarrow> Inr (bucket (field_name key) \<noteq> None))"

definition MemoryKeyValueStore_set_many ::
  "'v MemoryKeyValueStore \<Rightarrow> (Key \<times> 'v) list \<Rightarrow> 'v MemoryKeyValueStore" where
  "MemoryKeyValueStore_set_many st update_dict =
     fold (\<lambda>(key, value) s. MemoryKeyValueStore_set s key value) update_dict st"

text \<open>The in-memory store as an implementation of the interface. A method that raises
  leaves the store as it was: each raise comes before any assignment.\<close>

definition memory_kvs :: "('v MemoryKeyValueStore, 'v) KeyValueStore" where
  "memory_kvs =
     \<lparr>kvs_get = (\<lambda>st key. (MemoryKeyValueStore_get st key, st)),
      kvs_set = (\<lambda>st key v. (Inr (), MemoryKeyValueStore_set st key v)),
      kvs_delete = (\<lambda>st key.
         case MemoryKeyValueStore_delete st key of
           Inl e \<Rightarrow> (Inl e, st)
         | Inr st' \<Rightarrow> (Inr (), st')),
      kvs_has = (\<lambda>st key. (MemoryKeyValueStore_has st key, st)),
      kvs_set_many = (\<lambda>st update_dict. (Inr (), MemoryKeyValueStore_set_many st update_dict))\<rparr>"

section \<open>A store that records the calls it receives\<close>

text \<open>
  To observe which methods of the backend the overlay calls, a store is wrapped so that
  every call made through the interface is appended to a log before it is passed on.
\<close>

datatype kvs_call = call_get | call_set | call_delete | call_has | call_set_many

record 's recording =
  inner :: 's
  calls :: "kvs_call list"

definition recorded :: "kvs_call \<Rightarrow> 's recording \<Rightarrow> 'r \<times> 's \<Rightarrow> 'r \<times> 's recording" where
  "recorded c st res = (fst res, \<lparr>inner = snd res, calls = calls st @ [c]\<rparr>)"

definition recording_kvs :: "('s, 'v) KeyValueStore \<Rightarrow> ('s recording, 'v) KeyValueStore" where
  "recording_kvs k =
     \<lparr>kvs_get = (\<lambda>st key. recorded call_get st (kvs_get k (inner st) key)),
      kvs_set = (\<lambda>st key v. recorded call_set st (kvs_set k (inner st) key v)),
      kvs_delete = (\<lambda>st key. recorded call_delete st (kvs_delete k (inner st) key)),
      kvs_has = (\<lambda>st key. recorded call_has st (kvs_has k (inner st) key)),
      kvs_set_many = (\<lambda>st update_dict.
         recorded call_set_many st (kvs_set_many k (inner st) update_dict))\<rparr>"

section \<open>The lexer of querypath\<close>

text \<open>
  \<open>RegexLexer\<close> joins its token regexes into one alternation and yields, for every match
  of \<open>finditer\<close>, the name of the alternative that matched and the matched text. The lexer
  built in \<open>querypath\<close> has the alternatives, in this order: \<open>\.\.\<close>, \<open>\.\<close>, \<open>//\<close>, \<open>/\<close>,
  \<open>@\w+\<close>, \<open>\w+\<close> and \<open>.\<close>. The first alternative that matches at a position wins; \<open>\w\<close>
  is a letter, a digit or the underscore; \<open>.\<close> matches every character but the newline,
  so a newline matches nothing and \<open>finditer\<close> moves past it.
\<close>

datatype tokname = dotdot | dot | slashslash | slash | atword | word | err

definition is_word_char :: "char \<Rightarrow> bool" where
  "is_word_char c =
     (let n = (of_char c :: nat) in
      (48 \<le> n \<and> n \<le> 57) \<or> (65 \<le> n \<and> n \<le> 90) \<or> n = 95 \<or> (97 \<le> n \<and> n \<le> 122))"

function lex :: "string \<Rightarrow> (tokname \<times> string) list" where
  "lex [] = []"
| "lex (c # cs) =
     (if c = CHR ''.'' \<and> cs \<noteq> [] \<and> hd cs = CHR ''.'' then (dotdot, ''..'') # lex (tl cs)
      else if c = CHR ''.'' then (dot, ''.'') # lex cs
      else if c = CHR ''/'' \<and> cs \<noteq> [] \<and> hd cs = CHR ''/'' then (slashslash, ''//'') # lex (tl cs)
      else if c = CHR ''/'' then (slash, ''/'') # lex cs
      else if c = CHR ''@'' \<and> cs \<noteq> [] \<and> is_word_char (hd cs) then
        (atword, c # takeWhile is_word_char cs) # lex (dropWhile is_word_char cs)
      else if is_word_char c then
        (word, c # takeWhile is_word_char cs) # lex (dropWhile is_word_char cs)
      else if c \<noteq> CHR 0x0A then (err, [c]) # lex cs
      else lex cs)"
  by pat_completeness auto
termination
  by (relation "measure length") (auto simp: length_dropWhile_le le_imp_less_Suc)

section \<open>Runtime.querypath\<close>

text \<open>
  The tree-query object is supplied by the runtime (\<open>Runtime.query\<close> itself raises
  \<open>NotImplementedError\<close>); \<open>querypath\<close> only calls its methods, each of which returns a
  query object again.
\<close>

record 'q query_ops =
  q_parent :: "'q \<Rightarrow> 'q"
  q_descendants :: "'q \<Rightarrow> 'q"
  q_children :: "'q \<Rightarrow> 'q"
  q_tagged :: "'q \<Rightarrow> string \<Rightarrow> 'q"
  q_attr :: "'q \<Rightarrow> string \<Rightarrow> 'q"

datatype path_state = ROOT | SEP | WORD | FINAL

text \<open>The body of the \<open>for\<close> loop, for one token.\<close>

definition path_step ::
  "'q query_ops \<Rightarrow> path_state \<times> 'q \<Rightarrow> tokname \<times> string \<Rightarrow> error + path_state \<times> 'q" where
  "path_step ops sq tok =
     (case sq of (state, q) \<Rightarrow>
      case tok of (tokname, toktext) \<Rightarrow>
        if state = FINAL then Inl BadPath
        else if tokname = dotdot then
          (if state = WORD then Inl BadPath else Inr (WORD, q_parent ops q))
        else if tokname = dot then
          (if state = WORD then Inl BadPath else Inr (WORD, q))
        else if tokname = slashslash then
          (if state = SEP then Inl BadPath
           else if state = ROOT then Inl NotImplementedError
           else Inr (SEP, q_descendants ops q))
        else if tokname = slash then
          (if state = SEP then Inl BadPath
           else if state = ROOT then Inl NotImplementedError
           else Inr (SEP, q))
        else if tokname = atword then
          (if state \<noteq> SEP then Inl BadPath else Inr (FINAL, q_attr ops q (tl toktext)))
        else if tokname = word then
          (if state \<noteq> SEP then Inl BadPath
           else Inr (WORD, q_tagged ops (q_children ops q) toktext))
        else Inl BadPath)"

fun path_loop ::
  "'q query_ops \<Rightarrow> path_state \<times> 'q \<Rightarrow> (tokname \<times> string) list \<Rightarrow> error + 'q" where
  "path_loop ops sq [] = Inr (snd sq)"
| "path_loop ops sq (tok # toks) =
     (case path_step ops sq tok of
        Inl e \<Rightarrow> Inl e
      | Inr sq' \<Rightarrow> path_loop ops sq' toks)"

text \<open>\<open>querypath\<close>, given the query object \<open>q\<close> that \<open>self.query(block)\<close> returned.\<close>

definition querypath :: "'q query_ops \<Rightarrow> 'q \<Rightarrow> string \<Rightarrow> error + 'q" where
  "querypath ops q path = path_loop ops (ROOT, q) (lex path)"

section \<open>A tree-query object over a tree of tagged nodes\<close>

text \<open>
  Modelled from the spec: no implementation of the tree-query object is among the sources.
  Section 6 of the specification asks for \<open>parent()\<close>, \<open>descendants()\<close>, \<open>children()\<close>,
  \<open>tagged(name)\<close> and \<open>attr(name)\<close>, each returning a query object. Here a query is a
  selection of positions in a tree of tagged nodes with attributes (a position is a node
  followed by its ancestors, nearest first), or, after \<open>attr\<close>, the attribute values found.
\<close>

datatype xnode = XNode (node_tag: string) (node_attrs: "(string \<times> string) list") (node_kids: "xnode list")

datatype tree_query = Locs "xnode list list" | Vals "string list"

fun kid_locs :: "xnode list \<Rightarrow> xnode list list" where
  "kid_locs [] = []"
| "kid_locs (n # anc) = map (\<lambda>k. k # n # anc) (node_kids n)"

fun below :: "xnode \<Rightarrow> xnode list \<Rightarrow> xnode list list" where
  "below (XNode t a ks) anc =
     concat (map (\<lambda>k. (k # XNode t a ks # anc) # below k (XNode t a ks # anc)) ks)"

fun attr_vals :: "string \<Rightarrow> xnode list \<Rightarrow> string list" where
  "attr_vals name [] = []"
| "attr_vals name (n # anc) = (case map_of (node_attrs n) name of Some v \<Rightarrow> [v] | None \<Rightarrow> [])"

fun tq_parent :: "tree_query \<Rightarrow> tree_query" where
  "tq_parent (Locs ls) = Locs (map tl (filter (\<lambda>l. tl l \<noteq> []) ls))"
| "tq_parent (Vals vs) = Locs []"

fun tq_descendants :: "tree_query \<Rightarrow> tree_query" where
  "tq_descendants (Locs ls) = Locs (concat (map (\<lambda>l. if l = [] then [] else below (hd l) (tl l)) ls))"
| "tq_descendants (Vals vs) = Locs []"

fun tq_children :: "tree_query \<Rightarrow> tree_query" where
  "tq_children (Locs ls) = Locs (concat (map kid_locs ls))"
| "tq_children (Vals vs) = Locs []"

fun tq_tagged :: "tree_query \<Rightarrow> string \<Rightarrow> tree_query" where
  "tq_tagged (Locs ls) name = Locs (filter (\<lambda>l. l \<noteq> [] \<and> node_tag (hd l) = name) ls)"
| "tq_tagged (Vals vs) name = Locs []"

fun tq_attr :: "tree_query \<Rightarrow> string \<Rightarrow> tree_query" where
  "tq_attr (Locs ls) name = Vals (concat (map (attr_vals name) ls))"
| "tq_attr (Vals vs) name = Vals []"

definition tree_query_ops :: "tree_query query_ops" where
  "tree_query_ops =
     \<lparr>q_parent = tq_parent, q_descendants = tq_descendants, q_children = tq_children,
      q_tagged = tq_tagged, q_attr = tq_attr\<rparr>"

section \<open>Example objects\<close>

text \<open>A block type with fields of its own, an attribute that is not a field, and one
  namespace; an overlay for one of its blocks; an empty in-memory store.\<close>

definition thumbs_cls :: block_cls where
  "thumbs_cls =
     \<lparr>cls_name = ''Thumbs'',
      cls_attrs =
        [''upvotes'' \<mapsto> ModelTypeAttr \<lparr>field_scope = \<lparr>user = False, block = USAGE\<rparr>\<rparr>,
         ''voted'' \<mapsto> ModelTypeAttr \<lparr>field_scope = \<lparr>user = True, block = USAGE\<rparr>\<rparr>,
         ''children'' \<mapsto> ModelTypeAttr \<lparr>field_scope = \<lparr>user = True, block = CHILDREN\<rparr>\<rparr>,
         ''helper'' \<mapsto> OtherAttr],
      cls_namespaces =
        Some [(''meta'',
               [''title'' \<mapsto> ModelTypeAttr \<lparr>field_scope = \<lparr>user = False, block = DEFINITION\<rparr>\<rparr>])]\<rparr>"

definition thumbs_model :: "('s, 'v) KeyValueStore \<Rightarrow> ('s, 'v) DbModel" where
  "thumbs_model kvs =
     \<lparr>m_kvs = kvs, m_block_cls = thumbs_cls, m_student_id = Some ''student'',
      m_block_id = \<lparr>usage_id = ''0'', def_id = ''1''\<rparr>\<rparr>"

definition empty_store :: "nat MemoryKeyValueStore" where
  "empty_store = \<lparr>d = Map.empty\<rparr>"

definition votes_heap :: "nat heap" where
  "votes_heap = \<lparr>cells = [0 \<mapsto> [(''upvotes'', 1), (''title'', 2)]], next_ref = 1\<rparr>"

definition fresh_recording :: "nat MemoryKeyValueStore recording" where
  "fresh_recording = \<lparr>inner = empty_store, calls = []\<rparr>"

text \<open>A tree whose root has exactly one child tagged \<open>child\<close>, with attribute \<open>attr = "v"\<close>.\<close>

definition child_tree :: xnode where
  "child_tree = XNode ''root'' [] [XNode ''child'' [(''attr'', ''v'')] []]"

section \<open>Key derivation\<close>

lemma key_of_field_scope:
  "key_of_field m f name = Inr k \<Longrightarrow> scope k = field_scope f \<and> field_name k = name"
  by (cases "block (field_scope f)") (auto simp: key_of_field_def)

lemma DbModel_key_field_name: "DbModel_key m name = Inr k \<Longrightarrow> field_name k = name"
  by (auto simp: DbModel_key_def split: sum.splits dest: key_of_field_scope)

text \<open>The \<open>elif\<close> chain never falls through: every granularity is either caught by the
  test for \<open>children\<close> and \<open>parent\<close> or is one of the four block scopes.\<close>

lemma key_of_field_total: "\<exists>k. key_of_field m f name = Inr k"
  by (cases "block (field_scope f)") (simp_all add: key_of_field_def)

lemma DbModel_key_declared:
  "getfield (m_block_cls m) name = Inr f \<Longrightarrow> \<exists>k. DbModel_key m name = Inr k"
  using key_of_field_total [of m f name] by (simp add: DbModel_key_def)

text \<open>
  Claim C1. Two fields that differ in the name they are declared under, in the granularity
  of their scope or in its per-user flag get distinct storage keys from \<open>DbModel._key\<close>,
  whatever blocks, block types and users the two overlays are for. And the key is a
  function of the field, its name, the block identity, the name of the block type and the
  acting user alone: two overlays that agree on these derive the same key, whatever else
  their block types declare and whatever store each is attached to.
\<close>

theorem key_distinct_and_deterministic:
  "(getfield (m_block_cls m1) n1 = Inr f1 \<longrightarrow> getfield (m_block_cls m2) n2 = Inr f2 \<longrightarrow>
      (n1 \<noteq> n2 \<or> block (field_scope f1) \<noteq> block (field_scope f2)
        \<or> user (field_scope f1) \<noteq> user (field_scope f2)) \<longrightarrow>
      (\<exists>k1 k2. DbModel_key m1 n1 = Inr k1 \<and> DbModel_key m2 n2 = Inr k2 \<and> k1 \<noteq> k2))
   \<and> (getfield (m_block_cls m1) n = Inr f \<longrightarrow> getfield (m_block_cls m2) n = Inr f \<longrightarrow>
        m_block_id m1 = m_block_id m2 \<longrightarrow>
        cls_name (m_block_cls m1) = cls_name (m_block_cls m2) \<longrightarrow>
        m_student_id m1 = m_student_id m2 \<longrightarrow> DbModel_key m1 n = DbModel_key m2 n)"
proof (intro conjI impI)
  assume a: "getfield (m_block_cls m1) n1 = Inr f1" "getfield (m_block_cls m2) n2 = Inr f2"
    "n1 \<noteq> n2 \<or> block (field_scope f1) \<noteq> block (field_scope f2)
      \<or> user (field_scope f1) \<noteq> user (field_scope f2)"
  obtain k1 where k1: "key_of_field m1 f1 n1 = Inr k1" using key_of_field_total by blast
  obtain k2 where k2: "key_of_field m2 f2 n2 = Inr k2" using key_of_field_total by blast
  from key_of_field_scope [OF k1] key_of_field_scope [OF k2] a(3) have "k1 \<noteq> k2" by auto
  with a k1 k2 show "\<exists>k1 k2. DbModel_key m1 n1 = Inr k1 \<and> DbModel_key m2 n2 = Inr k2 \<and> k1 \<noteq> k2"
    by (simp add: DbModel_key_def)
next
  assume b: "getfield (m_block_cls m1) n = Inr f" "getfield (m_block_cls m2) n = Inr f"
    "m_block_id m1 = m_block_id m2" "cls_name (m_block_cls m1) = cls_name (m_block_cls m2)"
    "m_student_id m1 = m_student_id m2"
  have "key_of_field m1 f n = key_of_field m2 f n"
    by (cases "block (field_scope f)") (simp_all add: key_of_field_def b)
  with b show "DbModel_key m1 n = DbModel_key m2 n"
    by (simp add: DbModel_key_def)
qed

theorem key_distinct_and_deterministic_witness:
  "(\<exists>k1 k2. DbModel_key (thumbs_model (memory_kvs :: (nat MemoryKeyValueStore, nat) KeyValueStore)) ''upvotes'' = Inr k1
       \<and> DbModel_key (thumbs_model (memory_kvs :: (nat MemoryKeyValueStore, nat) KeyValueStore)) ''voted'' = Inr k2
       \<and> k1 \<noteq> k2)
   \<and> DbModel_key (thumbs_model (memory_kvs :: (nat MemoryKeyValueStore, nat) KeyValueStore)) ''title''
     = DbModel_key (thumbs_model (recording_kvs (memory_kvs :: (nat MemoryKeyValueStore, nat) KeyValueStore))) ''title''"
  using key_distinct_and_deterministic
    [where ?m1.0 = "thumbs_model (memory_kvs :: (nat MemoryKeyValueStore, nat) KeyValueStore)"
       and ?m2.0 = "thumbs_model (memory_kvs :: (nat MemoryKeyValueStore, nat) KeyValueStore)"
       and ?n1.0 = "''upvotes''" and ?n2.0 = "''voted''"
       and ?f1.0 = "\<lparr>field_scope = \<lparr>user = False, block = USAGE\<rparr>\<rparr>"
       and ?f2.0 = "\<lparr>field_scope = \<lparr>user = True, block = USAGE\<rparr>\<rparr>"]
    key_distinct_and_deterministic
    [where ?m1.0 = "thumbs_model (memory_kvs :: (nat MemoryKeyValueStore, nat) KeyValueStore)"
       and ?m2.0 = "thumbs_model (recording_kvs (memory_kvs :: (nat MemoryKeyValueStore, nat) KeyValueStore))"
       and n = "''title''" and f = "\<lparr>field_scope = \<lparr>user = False, block = DEFINITION\<rparr>\<rparr>"]
  by (simp add: thumbs_model_def thumbs_cls_def getfield_def)

text \<open>
  Claim C4. For a field whose scope has granularity CHILDREN or PARENT, the derived key has
  the block's \<open>usage_id\<close> as \<open>block_scope_id\<close> and no \<open>student_id\<close>, whatever the per-user
  flag of the scope is.
\<close>

theorem key_children_parent:
  assumes "getfield (m_block_cls m) name = Inr f"
    and "block (field_scope f) = CHILDREN \<or> block (field_scope f) = PARENT"
  shows "\<exists>k. DbModel_key m name = Inr k
           \<and> block_scope_id k = Some (usage_id (m_block_id m)) \<and> student_id k = None"
  using assms by (auto simp: DbModel_key_def key_of_field_def)

theorem key_children_parent_witness:
  "\<exists>k. DbModel_key (thumbs_model (memory_kvs :: (nat MemoryKeyValueStore, nat) KeyValueStore)) ''children'' = Inr k
        \<and> block_scope_id k = Some ''0'' \<and> student_id k = None"
  using key_children_parent
    [where m = "thumbs_model (memory_kvs :: (nat MemoryKeyValueStore, nat) KeyValueStore)"
       and name = "''children''"
       and f = "\<lparr>field_scope = \<lparr>user = True, block = CHILDREN\<rparr>\<rparr>"]
  by (simp add: thumbs_model_def thumbs_cls_def getfield_def)

text \<open>
  Claim C5. Take two block identities with different \<open>usage_id\<close> and the same \<open>def_id\<close>, and
  the same overlay otherwise. A field of granularity USAGE gets distinct keys for the two;
  a field of granularity DEFINITION gets the same key for both.
\<close>

theorem key_usage_definition:
  assumes "getfield (m_block_cls m) name = Inr f"
    and "usage_id b1 \<noteq> usage_id b2" and "def_id b1 = def_id b2"
  shows "(block (field_scope f) = USAGE \<longrightarrow>
            (\<exists>k1 k2. DbModel_key (m\<lparr>m_block_id := b1\<rparr>) name = Inr k1
                   \<and> DbModel_key (m\<lparr>m_block_id := b2\<rparr>) name = Inr k2 \<and> k1 \<noteq> k2))
       \<and> (block (field_scope f) = DEFINITION \<longrightarrow>
            (\<exists>k. DbModel_key (m\<lparr>m_block_id := b1\<rparr>) name = Inr k
                \<and> DbModel_key (m\<lparr>m_block_id := b2\<rparr>) name = Inr k))"
  using assms by (auto simp: DbModel_key_def key_of_field_def)

theorem key_usage_definition_witness:
  "(\<exists>k1 k2. DbModel_key (thumbs_model (memory_kvs :: (nat MemoryKeyValueStore, nat) KeyValueStore)
                \<lparr>m_block_id := \<lparr>usage_id = ''0'', def_id = ''1''\<rparr>\<rparr>) ''upvotes'' = Inr k1
         \<and> DbModel_key (thumbs_model (memory_kvs :: (nat MemoryKeyValueStore, nat) KeyValueStore)
                \<lparr>m_block_id := \<lparr>usage_id = ''2'', def_id = ''1''\<rparr>\<rparr>) ''upvotes'' = Inr k2
         \<and> k1 \<noteq> k2)
   \<and> (\<exists>k. DbModel_key (thumbs_model (memory_kvs :: (nat MemoryKeyValueStore, nat) KeyValueStore)
                \<lparr>m_block_id := \<lparr>usage_id = ''0'', def_id = ''1''\<rparr>\<rparr>) ''title'' = Inr k
         \<and> DbModel_key (thumbs_model (memory_kvs :: (nat MemoryKeyValueStore, nat) KeyValueStore)
                \<lparr>m_block_id := \<lparr>usage_id = ''2'', def_id = ''1''\<rparr>\<rparr>) ''title'' = Inr k)"
  using key_usage_definition
    [where m = "thumbs_model (memory_kvs :: (nat MemoryKeyValueStore, nat) KeyValueStore)"
       and name = "''upvotes''" and f = "\<lparr>field_scope = \<lparr>user = False, block = USAGE\<rparr>\<rparr>"
       and ?b1.0 = "\<lparr>usage_id = ''0'', def_id = ''1''\<rparr>"
       and ?b2.0 = "\<lparr>usage_id = ''2'', def_id = ''1''\<rparr>"]
    key_usage_definition
    [where m = "thumbs_model (memory_kvs :: (nat MemoryKeyValueStore, nat) KeyValueStore)"
       and name = "''title''" and f = "\<lparr>field_scope = \<lparr>user = False, block = DEFINITION\<rparr>\<rparr>"
       and ?b1.0 = "\<lparr>usage_id = ''0'', def_id = ''1''\<rparr>"
       and ?b2.0 = "\<lparr>usage_id = ''2'', def_id = ''1''\<rparr>"]
  by (simp add: thumbs_model_def thumbs_cls_def getfield_def)

section \<open>The in-memory store\<close>

lemma has_missing_bucket:
  "d st (actual_key key) = None \<Longrightarrow>
   MemoryKeyValueStore_has st key = Inl (KeyError (actual_key key))"
  by (simp add: MemoryKeyValueStore_has_def)

lemma has_existing_bucket:
  "d st (actual_key key) = Some bucket \<Longrightarrow>
   MemoryKeyValueStore_has st key = Inr (field_name key \<in> dom bucket)"
  by (auto simp: MemoryKeyValueStore_has_def)

text \<open>
  Claim C3. The claim says that \<open>has\<close> returns false for a key with no stored value, also
  when nothing was ever stored under the key's bucket. On the empty store the code looks
  the bucket up with \<open>self.d[...]\<close> and raises \<open>KeyError\<close> instead: \<open>has\<close> lacks the
  \<open>setdefault\<close> that \<open>set\<close> has, although the interface documents it as returning a Boolean.
\<close>

theorem has_raises_on_missing_bucket:
  "MemoryKeyValueStore_has empty_store
     \<lparr>scope = \<lparr>user = False, block = USAGE\<rparr>, student_id = None,
      block_scope_id = Some ''0'', field_name = ''upvotes''\<rparr>
   = Inl (KeyError ''usage.0'')"
  by (simp add: MemoryKeyValueStore_has_def actual_key_def key_parts_def empty_store_def)

lemma get_set_same: "MemoryKeyValueStore_get (MemoryKeyValueStore_set st k v) k = Inr v"
  by (simp add: MemoryKeyValueStore_get_def MemoryKeyValueStore_set_def)

lemma get_set_other:
  "field_name k' \<noteq> field_name k \<Longrightarrow>
   MemoryKeyValueStore_get (MemoryKeyValueStore_set st k v) k' = Inr w
     \<longleftrightarrow> MemoryKeyValueStore_get st k' = Inr w"
  by (auto simp: MemoryKeyValueStore_get_def MemoryKeyValueStore_set_def split: option.splits)

subsection \<open>Bucket strings\<close>












text \<open>The other two conditions of the amended statement are needed as well: within one
  granularity an absent \<open>block_scope_id\<close> is not marked in the bucket string, and an empty
  \<open>student_id\<close> is left out like an absent one.\<close>

lemma actual_key_collision_absent_scope_id:
  "actual_key \<lparr>scope = \<lparr>user = True, block = ALL_scope\<rparr>, student_id = Some ''x'',
               block_scope_id = None, field_name = ''voted''\<rparr>
   = actual_key \<lparr>scope = \<lparr>user = True, block = ALL_scope\<rparr>, student_id = None,
                 block_scope_id = Some ''x'', field_name = ''voted''\<rparr>"
  by (simp add: actual_key_def key_parts_def)

lemma actual_key_collision_empty_student:
  "actual_key \<lparr>scope = \<lparr>user = True, block = USAGE\<rparr>, student_id = Some [],
               block_scope_id = Some ''0'', field_name = ''voted''\<rparr>
   = actual_key \<lparr>scope = \<lparr>user = True, block = USAGE\<rparr>, student_id = None,
                 block_scope_id = Some ''0'', field_name = ''voted''\<rparr>"
  by (simp add: actual_key_def key_parts_def)

section \<open>The overlay\<close>

lemma namespace_field_None:
  "\<forall>nsn ns f. (nsn, ns) \<in> set nss \<longrightarrow> ns name \<noteq> Some (ModelTypeAttr f) \<Longrightarrow>
   namespace_field nss name = None"
  by (induction nss name rule: namespace_field.induct) (auto split: option.splits attr.splits)

lemma getfield_undeclared:
  assumes "\<forall>f. cls_attrs cls name \<noteq> Some (ModelTypeAttr f)"
    and "\<forall>nss nsn ns f. cls_namespaces cls = Some nss \<longrightarrow> (nsn, ns) \<in> set nss \<longrightarrow>
           ns name \<noteq> Some (ModelTypeAttr f)"
  shows "getfield cls name = Inl (KeyError name)"
proof -
  have "namespace_field nss name = None" if "cls_namespaces cls = Some nss" for nss
    using assms(2) that by (intro namespace_field_None) blast
  with assms(1) show ?thesis
    by (auto simp: getfield_def split: option.splits attr.splits)
qed

text \<open>
  Claim C7. Let a name be declared as a field neither on the block type nor on the type of
  any of its namespaces. Then \<open>get\<close>, \<open>set\<close> and \<open>delete\<close> of the overlay raise \<open>KeyError\<close> for
  that name and leave the store alone, and \<open>contains\<close> returns \<open>False\<close>, whatever the store
  behind the overlay is.
\<close>

theorem undeclared_name:
  assumes "\<forall>f. cls_attrs (m_block_cls m) name \<noteq> Some (ModelTypeAttr f)"
    and "\<forall>nss nsn ns f. cls_namespaces (m_block_cls m) = Some nss \<longrightarrow> (nsn, ns) \<in> set nss \<longrightarrow>
           ns name \<noteq> Some (ModelTypeAttr f)"
  shows "getitem m name st = (Inl (KeyError name), st)
       \<and> setitem m name v st = (Inl (KeyError name), st)
       \<and> delitem m name st = (Inl (KeyError name), st)
       \<and> contains m name st = (Inr False, st)"
proof -
  have "DbModel_key m name = Inl (KeyError name)"
    using getfield_undeclared [OF assms] by (simp add: DbModel_key_def)
  then show ?thesis by (simp add: getitem_def setitem_def delitem_def contains_def)
qed

theorem undeclared_name_witness:
  "getitem (thumbs_model memory_kvs) ''helper'' empty_store = (Inl (KeyError ''helper''), empty_store)
   \<and> setitem (thumbs_model memory_kvs) ''helper'' 5 empty_store = (Inl (KeyError ''helper''), empty_store)
   \<and> delitem (thumbs_model memory_kvs) ''helper'' empty_store = (Inl (KeyError ''helper''), empty_store)
   \<and> contains (thumbs_model memory_kvs) ''helper'' empty_store = (Inr False, empty_store)"
  using undeclared_name
    [where m = "thumbs_model memory_kvs" and name = "''helper''" and st = empty_store and v = 5]
  by (simp add: thumbs_model_def thumbs_cls_def)



subsection \<open>update\<close>

lemma dict_update_Nil: "dict_update od [] = od"
  by (simp add: dict_update_def)

lemma dict_update_Cons: "dict_update od ((k, v) # kw) = dict_update (AList.update k v od) kw"
  by (simp add: dict_update_def)

lemma map_of_dict_update_other:
  "k \<notin> fst ` set kw \<Longrightarrow> map_of (dict_update od kw) k = map_of od k"
proof (induction kw arbitrary: od)
  case Nil
  then show ?case by (simp add: dict_update_Nil)
next
  case (Cons a kw)
  obtain k' v' where a: "a = (k', v')" by (cases a)
  with Cons show ?case by (simp add: dict_update_Cons update_conv')
qed

lemma map_of_dict_update_in:
  "distinct (map fst kw) \<Longrightarrow> (k, v) \<in> set kw \<Longrightarrow> map_of (dict_update od kw) k = Some v"
proof (induction kw arbitrary: od)
  case Nil
  then show ?case by simp
next
  case (Cons a kw)
  obtain k' v' where a: "a = (k', v')" by (cases a)
  show ?case
  proof (cases "(k, v) = a")
    case True
    with a Cons.prems have "k \<notin> fst ` set kw" by auto
    with True a show ?thesis
      by (simp add: dict_update_Cons map_of_dict_update_other update_conv')
  next
    case False
    with Cons.prems have "distinct (map fst kw)" "(k, v) \<in> set kw" by auto
    then have "map_of (dict_update (AList.update k' v' od) kw) k = Some v" by (rule Cons.IH)
    with a show ?thesis by (simp add: dict_update_Cons)
  qed
qed

lemma distinct_dict_update:
  "distinct (map fst od) \<Longrightarrow> distinct (map fst (dict_update od kw))"
proof (induction kw arbitrary: od)
  case Nil
  then show ?case by (simp add: dict_update_Nil)
next
  case (Cons a kw)
  obtain k' v' where a: "a = (k', v')" by (cases a)
  with Cons show ?case by (simp add: dict_update_Cons distinct_update)
qed

lemma update_fresh: "k \<notin> fst ` set al \<Longrightarrow> AList.update k v al = al @ [(k, v)]"
  by (induction al) auto

text \<open>When every name resolves, the loop of \<open>update\<close> builds one entry per item, in order:
  keys of different names differ, so no assignment overwrites an earlier one.\<close>

lemma updated_dict_resolved:
  assumes "\<forall>n \<in> fst ` set items. \<exists>k. DbModel_key m n = Inr k"
    and "distinct (map fst items)"
    and "fst ` set items \<inter> field_name ` fst ` set acc = {}"
  shows "updated_dict m items acc
         = Inr (acc @ map (\<lambda>(n, v). (projr (DbModel_key m n), v)) items)"
  using assms
proof (induction items arbitrary: acc)
  case Nil
  then show ?case by simp
next
  case (Cons a items)
  obtain n v where a: "a = (n, v)" by (cases a)
  from Cons.prems(1) a obtain k where k: "DbModel_key m n = Inr k" by auto
  then have fn: "field_name k = n" by (rule DbModel_key_field_name)
  from Cons.prems(3) a fn have "k \<notin> fst ` set acc" by auto
  then have u: "AList.update k v acc = acc @ [(k, v)]" by (rule update_fresh)
  have 1: "\<forall>n \<in> fst ` set items. \<exists>k. DbModel_key m n = Inr k" using Cons.prems(1) by simp
  have 2: "distinct (map fst items)" using Cons.prems(2) by simp
  have 3: "fst ` set items \<inter> field_name ` fst ` set (acc @ [(k, v)]) = {}"
    using Cons.prems(2,3) a fn by auto
  have "updated_dict m items (acc @ [(k, v)])
         = Inr ((acc @ [(k, v)]) @ map (\<lambda>(n, v). (projr (DbModel_key m n), v)) items)"
    by (rule Cons.IH [OF 1 2 3])
  with a k u show ?case by simp
qed

lemma set_many_Cons:
  "MemoryKeyValueStore_set_many st ((k, v) # ud)
   = MemoryKeyValueStore_set_many (MemoryKeyValueStore_set st k v) ud"
  by (simp add: MemoryKeyValueStore_set_many_def)

lemma set_many_get_other:
  "field_name k \<notin> field_name ` fst ` set ud \<Longrightarrow>
   MemoryKeyValueStore_get (MemoryKeyValueStore_set_many st ud) k = Inr w
     \<longleftrightarrow> MemoryKeyValueStore_get st k = Inr w"
proof (induction ud arbitrary: st)
  case Nil
  then show ?case by (simp add: MemoryKeyValueStore_set_many_def)
next
  case (Cons a ud)
  obtain k' v' where a: "a = (k', v')" by (cases a)
  with Cons.prems have ne: "field_name k \<noteq> field_name k'"
    and rest: "field_name k \<notin> field_name ` fst ` set ud" by auto
  show ?case unfolding a set_many_Cons Cons.IH [OF rest] by (rule get_set_other [OF ne])
qed

lemma set_many_get_in:
  "distinct (map (\<lambda>p. field_name (fst p)) ud) \<Longrightarrow> (k, v) \<in> set ud \<Longrightarrow>
   MemoryKeyValueStore_get (MemoryKeyValueStore_set_many st ud) k = Inr v"
proof (induction ud arbitrary: st)
  case Nil
  then show ?case by simp
next
  case (Cons a ud)
  obtain k' v' where a: "a = (k', v')" by (cases a)
  show ?case
  proof (cases "(k, v) = a")
    case True
    with a Cons.prems(1) have "field_name k \<notin> field_name ` fst ` set ud" by auto
    then show ?thesis
      using True a by (simp add: set_many_Cons set_many_get_other get_set_same)
  next
    case False
    with Cons.prems have "distinct (map (\<lambda>p. field_name (fst p)) ud)" "(k, v) \<in> set ud"
      by auto
    then have "MemoryKeyValueStore_get
        (MemoryKeyValueStore_set_many (MemoryKeyValueStore_set st k' v') ud) k = Inr v"
      by (rule Cons.IH)
    with a show ?thesis by (simp add: set_many_Cons)
  qed
qed

text \<open>Whether \<open>update\<close> works on the caller's dictionary or on a new one, the dictionary it
  works on starts with the contents of the caller's.\<close>

lemma update_target:
  assumes "cells h r = Some od"
  shows "\<exists>r' h1. other_or_empty h (Some r) = (r', h1) \<and> deref h1 r' = od"
  using assms by (cases "od = []") (simp_all add: other_or_empty_def deref_def alloc_def)

text \<open>
  Claim C9. Let the overlay sit on the recording wrapper of the in-memory store, let the
  caller's dictionary have distinct keys, and let every name of the mapping (the caller's
  dictionary combined with the keyword arguments) be a declared field. Then \<open>update\<close>
  succeeds; the backend received exactly one call, a \<open>set_many\<close>, and no \<open>set\<close>; that call
  carried one resolved key per entry of the mapping; and afterwards \<open>get\<close> on each name of
  the mapping returns the value given for it.
\<close>

theorem update_one_set_many:
  assumes "m_kvs m = recording_kvs memory_kvs"
    and "cells h r = Some od" and "distinct (map fst od)"
    and "\<forall>n \<in> fst ` set (dict_update od kwargs). \<exists>f. getfield (m_block_cls m) n = Inr f"
  shows "\<exists>h' st'. DbModel_update m h (Some r) kwargs st = (h', Inr (), st')
     \<and> calls st' = calls st @ [call_set_many]
     \<and> inner st' = MemoryKeyValueStore_set_many (inner st)
          (map (\<lambda>(n, v). (projr (DbModel_key m n), v)) (dict_update od kwargs))
     \<and> (\<forall>(n, v) \<in> set (dict_update od kwargs). fst (getitem m n st') = Inr v)"
proof -
  let ?items = "dict_update od kwargs"
  let ?ud = "map (\<lambda>(n, v). (projr (DbModel_key m n), v)) ?items"
  let ?st' = "\<lparr>inner = MemoryKeyValueStore_set_many (inner st) ?ud,
              calls = calls st @ [call_set_many]\<rparr>"
  obtain r' h1 where t: "other_or_empty h (Some r) = (r', h1)" "deref h1 r' = od"
    using update_target [OF assms(2)] by blast
  have res: "\<forall>n \<in> fst ` set ?items. \<exists>k. DbModel_key m n = Inr k"
    using assms(4) DbModel_key_declared by blast
  have dist: "distinct (map fst ?items)" using assms(3) by (rule distinct_dict_update)
  have ud: "updated_dict m ?items [] = Inr ?ud"
    using updated_dict_resolved [OF res dist, of "[]"] by simp
  have upd: "DbModel_update m h (Some r) kwargs st
             = (h1\<lparr>cells := (cells h1)(r' \<mapsto> ?items)\<rparr>, Inr (), ?st')"
    using t ud assms(1)
    by (simp add: DbModel_update_def Let_def deref_def recording_kvs_def recorded_def
        memory_kvs_def)
  have fn: "map (\<lambda>p. field_name (fst p)) ?ud = map fst ?items"
    using res by (auto simp: DbModel_key_field_name split: prod.splits)
  have get: "fst (getitem m n ?st') = Inr v" if nv: "(n, v) \<in> set ?items" for n v
  proof -
    from res nv obtain k where k: "DbModel_key m n = Inr k" by force
    with nv have "(k, v) \<in> set ?ud" by force
    moreover have "distinct (map (\<lambda>p. field_name (fst p)) ?ud)" by (subst fn) (rule dist)
    ultimately have
      "MemoryKeyValueStore_get (MemoryKeyValueStore_set_many (inner st) ?ud) k = Inr v"
      by (intro set_many_get_in)
    with k assms(1) show ?thesis
      by (simp add: getitem_def recording_kvs_def recorded_def memory_kvs_def)
  qed
  show ?thesis
    by (rule exI [of _ "h1\<lparr>cells := (cells h1)(r' \<mapsto> ?items)\<rparr>"], rule exI [of _ ?st'])
       (use upd get in auto)
qed

theorem update_one_set_many_witness:
  "calls (snd (snd (DbModel_update (thumbs_model (recording_kvs memory_kvs)) votes_heap (Some 0)
            [(''voted'', 3)] fresh_recording))) = [call_set_many]
   \<and> fst (getitem (thumbs_model (recording_kvs memory_kvs)) ''upvotes''
        (snd (snd (DbModel_update (thumbs_model (recording_kvs memory_kvs)) votes_heap (Some 0)
            [(''voted'', 3)] fresh_recording)))) = Inr 1
   \<and> fst (getitem (thumbs_model (recording_kvs memory_kvs)) ''voted''
        (snd (snd (DbModel_update (thumbs_model (recording_kvs memory_kvs)) votes_heap (Some 0)
            [(''voted'', 3)] fresh_recording)))) = Inr 3"
  using update_one_set_many
    [where m = "thumbs_model (recording_kvs memory_kvs)" and h = votes_heap and r = 0
       and od = "[(''upvotes'', 1), (''title'', 2)]" and kwargs = "[(''voted'', 3)]"
       and st = fresh_recording]
  by (auto simp: thumbs_model_def thumbs_cls_def getfield_def votes_heap_def
      fresh_recording_def dict_update_def)

lemma update_heap_cell:
  assumes "cells h r = Some od" "od \<noteq> []"
  shows "cells (fst (DbModel_update m h (Some r) kwargs st)) r = Some (dict_update od kwargs)"
  using assms
  by (simp add: DbModel_update_def other_or_empty_def deref_def Let_def
      split: sum.splits prod.splits)

text \<open>
  Claim C10. When \<open>update\<close> is called with a non-empty dictionary of the caller and keyword
  arguments, then after the call, whether the batch write happened or a name failed to
  resolve, the caller's dictionary object holds \<open>other_dict.update(kwargs)\<close>: every keyword
  entry is in it, and it differs from what the caller passed as soon as one keyword entry
  was not already there with that value.
\<close>

theorem update_mutates_other_dict:
  assumes "cells h r = Some od" and "od \<noteq> []" and "distinct (map fst kwargs)"
  shows "cells (fst (DbModel_update m h (Some r) kwargs st)) r = Some (dict_update od kwargs)
       \<and> (\<forall>(k, v) \<in> set kwargs. map_of (dict_update od kwargs) k = Some v)
       \<and> ((\<exists>(k, v) \<in> set kwargs. map_of od k \<noteq> Some v) \<longrightarrow>
            cells (fst (DbModel_update m h (Some r) kwargs st)) r \<noteq> cells h r)"
proof (intro conjI)
  show c: "cells (fst (DbModel_update m h (Some r) kwargs st)) r = Some (dict_update od kwargs)"
    using assms(1,2) by (rule update_heap_cell)
  show i: "\<forall>(k, v) \<in> set kwargs. map_of (dict_update od kwargs) k = Some v"
    using assms(3) by (auto simp: map_of_dict_update_in)
  show "(\<exists>(k, v) \<in> set kwargs. map_of od k \<noteq> Some v) \<longrightarrow>
            cells (fst (DbModel_update m h (Some r) kwargs st)) r \<noteq> cells h r"
  proof
    assume "\<exists>(k, v) \<in> set kwargs. map_of od k \<noteq> Some v"
    then obtain k v where kv: "(k, v) \<in> set kwargs" "map_of od k \<noteq> Some v" by auto
    from i kv(1) have "map_of (dict_update od kwargs) k = Some v" by auto
    with kv(2) have "dict_update od kwargs \<noteq> od" by auto
    with c assms(1) show "cells (fst (DbModel_update m h (Some r) kwargs st)) r \<noteq> cells h r"
      by simp
  qed
qed

theorem update_mutates_other_dict_witness:
  "cells (fst (DbModel_update (thumbs_model memory_kvs) votes_heap (Some 0)
                 [(''voted'', 3)] empty_store)) 0
     = Some [(''upvotes'', 1), (''title'', 2), (''voted'', 3)]
   \<and> cells (fst (DbModel_update (thumbs_model memory_kvs) votes_heap (Some 0)
                   [(''voted'', 3)] empty_store)) 0
     \<noteq> cells votes_heap 0"
  using update_mutates_other_dict
    [where m = "thumbs_model memory_kvs" and h = votes_heap and r = 0
       and od = "[(''upvotes'', 1), (''title'', 2)]" and kwargs = "[(''voted'', 3)]"
       and st = empty_store]
  by (simp add: votes_heap_def dict_update_def)

text \<open>An empty dictionary of the caller is not touched: \<open>other_dict or {}\<close> replaces it by a
  new one.\<close>

lemma update_empty_not_shared:
  "cells h r = Some [] \<Longrightarrow> r < next_ref h \<Longrightarrow>
   cells (fst (DbModel_update m h (Some r) kwargs st)) r = Some []"
  by (simp add: DbModel_update_def other_or_empty_def deref_def alloc_def Let_def
      split: sum.splits)

section \<open>Path queries\<close>

lemma querypath_dot_child_attr_generic:
  "querypath ops q ''./child/@attr''
   = Inr (q_attr ops (q_tagged ops (q_children ops q) ''child'') ''attr'')"
  by (simp add: querypath_def is_word_char_def path_step_def)

text \<open>A path that starts with a tag name is refused by every query object: a \<open>word\<close> token
  is accepted in state \<open>SEP\<close> only, and the loop starts in state \<open>ROOT\<close>.\<close>

lemma querypath_child_attr_generic: "querypath ops q ''child/@attr'' = Inl BadPath"
  by (simp add: querypath_def is_word_char_def path_step_def)

lemma tagged_children:
  "tq_tagged (tq_children (Locs [n # anc])) name
   = Locs (map (\<lambda>k. k # n # anc) (filter (\<lambda>k. node_tag k = name) (node_kids n)))"
  by (simp add: filter_map comp_def)

text \<open>
  Claim C2, as amended. The path \<open>./child/@attr\<close>, with the leading dot, drives every query
  object through \<open>children().tagged("child")\<close> and then \<open>attr("attr")\<close> and returns the result;
  against a tree whose current node has exactly one child tagged \<open>child\<close>, carrying
  \<open>attr = v\<close>, it resolves to \<open>v\<close>.
\<close>

theorem querypath_dot_child_attr:
  "querypath ops q ''./child/@attr''
     = Inr (q_attr ops (q_tagged ops (q_children ops q) ''child'') ''attr'')
   \<and> (filter (\<lambda>k. node_tag k = ''child'') (node_kids n) = [c] \<longrightarrow>
        map_of (node_attrs c) ''attr'' = Some v \<longrightarrow>
        querypath tree_query_ops (Locs [n # anc]) ''./child/@attr'' = Inr (Vals [v]))"
proof (intro conjI impI)
  show g: "querypath ops q ''./child/@attr''
     = Inr (q_attr ops (q_tagged ops (q_children ops q) ''child'') ''attr'')"
    for ops :: "'b query_ops" and q
    by (rule querypath_dot_child_attr_generic)
  assume "filter (\<lambda>k. node_tag k = ''child'') (node_kids n) = [c]"
    and "map_of (node_attrs c) ''attr'' = Some v"
  then have "tq_attr (tq_tagged (tq_children (Locs [n # anc])) ''child'') ''attr'' = Vals [v]"
    unfolding tagged_children by simp
  then show "querypath tree_query_ops (Locs [n # anc]) ''./child/@attr'' = Inr (Vals [v])"
    unfolding g by (simp add: tree_query_ops_def)
qed

theorem querypath_dot_child_attr_witness:
  "querypath tree_query_ops (Locs [[child_tree]]) ''./child/@attr'' = Inr (Vals [''v''])"
  using querypath_dot_child_attr
    [where ops = tree_query_ops and q = "Locs [[child_tree]]" and n = child_tree
       and c = "XNode ''child'' [(''attr'', ''v'')] []" and v = "''v''" and anc = "[]"]
  by (simp add: child_tree_def tree_query_ops_def)

text \<open>The claim as stated fails: on that tree the path \<open>child/@attr\<close>, without the leading
  dot, raises \<open>BadPath\<close> at its first token.\<close>

theorem querypath_child_attr_bad_path:
  "querypath tree_query_ops (Locs [[child_tree]]) ''child/@attr'' = Inl BadPath"
  by (simp add: querypath_def is_word_char_def path_step_def)

end
